theory Spec2Isabelle
  imports Complex_Main
begin

section \<open>Voxel Collider Generator: the grid, the classifier and the emitter\<close>

text \<open>
  A shallow embedding of \<^verbatim>\<open>voxel_collider_generator.py\<close>. Python floats (and the
  single-precision components of \<^verbatim>\<open>mathutils.Vector\<close>) are idealised as real
  numbers; grid indices are Python integers and are modelled as \<^typ>\<open>int\<close>.
  Exceptions that the Python can raise are values of \<open>py_error\<close>.
\<close>

subsection \<open>Vectors\<close>

type_synonym vec = "real \<times> real \<times> real"

fun vadd :: "vec \<Rightarrow> vec \<Rightarrow> vec" where
  "vadd (a, b, c) (x, y, z) = (a + x, b + y, c + z)"

fun vsub :: "vec \<Rightarrow> vec \<Rightarrow> vec" where
  "vsub (a, b, c) (x, y, z) = (a - x, b - y, c - z)"

fun vscale :: "vec \<Rightarrow> real \<Rightarrow> vec" where
  "vscale (a, b, c) s = (a * s, b * s, c * s)"

fun dot :: "vec \<Rightarrow> vec \<Rightarrow> real" where
  "dot (a, b, c) (x, y, z) = a * x + b * y + c * z"

text \<open>\<^verbatim>\<open>Vector.normalized()\<close>: a vector of length zero stays the zero vector.\<close>

definition normalized :: "vec \<Rightarrow> vec" where
  "normalized v =
     (let l = sqrt (dot v v) in if l = 0 then (0, 0, 0) else vscale v (1 / l))"

subsection \<open>The property group\<close>

text \<open>
  \<^verbatim>\<open>VCG_Props\<close>. Blender keeps \<^verbatim>\<open>voxel_size\<close> at or above its declared
  minimum 0.01 and \<^verbatim>\<open>voxel_resolution\<close> between 4 and 256.
\<close>

record VCG_Props =
  voxel_size :: real
  use_boxes :: bool
  use_spheres :: bool
  use_capsules :: bool
  merge_output :: bool
  voxel_resolution :: int

subsection \<open>The boolean array of numpy\<close>

datatype py_error = ZeroDivisionError | ValueError | IndexError

type_synonym index = "int \<times> int \<times> int"

text \<open>
  A three-dimensional C-contiguous array: its shape and its cells in row-major order
  (the last axis varies fastest).
\<close>

record ndarray =
  shape :: "nat \<times> nat \<times> nat"
  data :: "bool list"

text \<open>\<^verbatim>\<open>np.zeros(grid_size, dtype=bool)\<close>; a negative dimension raises ValueError.\<close>

fun np_zeros :: "int \<times> int \<times> int \<Rightarrow> py_error + ndarray" where
  "np_zeros (nx, ny, nz) =
     (if nx < 0 \<or> ny < 0 \<or> nz < 0 then Inl ValueError
      else Inr \<lparr>shape = (nat nx, nat ny, nat nz),
                data = replicate (nat nx * nat ny * nat nz) False\<rparr>)"

text \<open>
  One component of a numpy index: a negative value counts from the end, and a value
  outside \<open>-n \<le> i < n\<close> raises IndexError (here \<open>None\<close>).
\<close>

definition norm_index :: "nat \<Rightarrow> int \<Rightarrow> nat option" where
  "norm_index n i =
     (if 0 \<le> i \<and> i < int n then Some (nat i)
      else if - int n \<le> i \<and> i < 0 then Some (nat (i + int n))
      else None)"

text \<open>The position of a cell in the flat data, or \<open>None\<close> where numpy raises IndexError.\<close>

fun ravel :: "nat \<times> nat \<times> nat \<Rightarrow> index \<Rightarrow> nat option" where
  "ravel (nx, ny, nz) (i, j, k) =
     (case (norm_index nx i, norm_index ny j, norm_index nz k) of
        (Some a, Some b, Some c) \<Rightarrow> Some ((a * ny + b) * nz + c)
      | _ \<Rightarrow> None)"

text \<open>\<^verbatim>\<open>a[index]\<close> and \<^verbatim>\<open>a[index] = v\<close> for a full three-component index.\<close>

definition getitem :: "ndarray \<Rightarrow> index \<Rightarrow> py_error + bool" where
  "getitem a idx =
     (case ravel (shape a) idx of
        None \<Rightarrow> Inl IndexError
      | Some n \<Rightarrow> if n < length (data a) then Inr (data a ! n) else Inl IndexError)"

definition setitem :: "ndarray \<Rightarrow> index \<Rightarrow> bool \<Rightarrow> py_error + ndarray" where
  "setitem a idx v =
     (case ravel (shape a) idx of
        None \<Rightarrow> Inl IndexError
      | Some n \<Rightarrow>
          if n < length (data a) then Inr (a\<lparr>data := (data a)[n := v]\<rparr>)
          else Inl IndexError)"

text \<open>\<^verbatim>\<open>np.ndindex\<close>: the coordinates of a shape in row-major order.\<close>

fun ndindex :: "nat \<times> nat \<times> nat \<Rightarrow> index list" where
  "ndindex (nx, ny, nz) =
     map (\<lambda>(i, j, k). (int i, int j, int k))
       (List.product [0..<nx] (List.product [0..<ny] [0..<nz]))"

text \<open>\<^verbatim>\<open>np.ndenumerate(a)\<close>: the pairs of coordinates and value, in row-major order.\<close>

definition ndenumerate :: "ndarray \<Rightarrow> (index \<times> bool) list" where
  "ndenumerate a = zip (ndindex (shape a)) (data a)"

subsection \<open>VoxelGrid\<close>

record VoxelGrid =
  min_corner :: vec
  max_corner :: vec
  voxel_size :: real
  dims :: vec
  grid_size :: "int \<times> int \<times> int"
  grid :: ndarray

text \<open>
  \<^verbatim>\<open>VoxelGrid.__init__\<close>. The division of two Python floats raises
  ZeroDivisionError when the voxel size is zero.
\<close>

definition VoxelGrid_init :: "vec \<Rightarrow> vec \<Rightarrow> real \<Rightarrow> py_error + VoxelGrid" where
  "VoxelGrid_init mn mx vs =
     (let d = vsub mx mn in
      if vs = 0 then Inl ZeroDivisionError
      else
        (case d of (dx, dy, dz) \<Rightarrow>
           let gs = (\<lceil>dx / vs\<rceil>, \<lceil>dy / vs\<rceil>, \<lceil>dz / vs\<rceil>) in
           (case np_zeros gs of
              Inl e \<Rightarrow> Inl e
            | Inr a \<Rightarrow>
                Inr \<lparr>min_corner = mn, max_corner = mx, voxel_size = vs, dims = d,
                     grid_size = gs, grid = a\<rparr>)))"

text \<open>
  \<^verbatim>\<open>all(0 <= idx < dim for idx, dim in zip(index, self.grid_size))\<close>
\<close>

fun in_range :: "index \<Rightarrow> int \<times> int \<times> int \<Rightarrow> bool" where
  "in_range (i, j, k) (nx, ny, nz) =
     ((0 \<le> i \<and> i < nx) \<and> (0 \<le> j \<and> j < ny) \<and> (0 \<le> k \<and> k < nz))"

definition mark :: "VoxelGrid \<Rightarrow> index \<Rightarrow> py_error + VoxelGrid" where
  "mark g idx =
     (if in_range idx (grid_size g) then
        (case setitem (grid g) idx True of
           Inl e \<Rightarrow> Inl e
         | Inr a \<Rightarrow> Inr (g\<lparr>grid := a\<rparr>))
      else Inr g)"

definition is_marked :: "VoxelGrid \<Rightarrow> index \<Rightarrow> py_error + bool" where
  "is_marked g idx =
     (if in_range idx (grid_size g) then getitem (grid g) idx else Inr True)"

text \<open>
  \<^verbatim>\<open>iter_empty\<close> on a grid that is not mutated while the generator runs: the
  coordinates of the cells that hold False, in the order of \<^verbatim>\<open>np.ndenumerate\<close>.
\<close>

definition iter_empty :: "VoxelGrid \<Rightarrow> index list" where
  "iter_empty g = map fst (filter (\<lambda>(idx, val). \<not> val) (ndenumerate (grid g)))"

text \<open>
  The invariant of a grid built by \<^verbatim>\<open>__init__\<close>: the array has the shape
  \<^verbatim>\<open>grid_size\<close> and one cell per coordinate.
\<close>

definition grid_ok :: "VoxelGrid \<Rightarrow> bool" where
  "grid_ok g =
     (case shape (grid g) of (nx, ny, nz) \<Rightarrow>
        grid_size g = (int nx, int ny, int nz) \<and>
        length (data (grid g)) = nx * ny * nz)"

text \<open>The flat position of an in-range coordinate.\<close>

fun offset :: "nat \<times> nat \<times> nat \<Rightarrow> index \<Rightarrow> nat" where
  "offset (nx, ny, nz) (i, j, k) = (nat i * ny + nat j) * nz + nat k"

text \<open>
  The generator \<^verbatim>\<open>iter_empty\<close> driving a loop that marks the grid it is reading.
  The iterator of \<^verbatim>\<open>np.ndenumerate\<close> fixes its positions when it is created and
  reads the value of a position when it reaches it, so the loop walks the pairs of
  coordinate and flat position and looks each value up in the current grid. The body
  marks the yielded voxel when \<open>inside\<close> holds for it. The result is the final grid
  with the sequence of yielded coordinates.
\<close>

fun fill_loop ::
  "(index \<Rightarrow> bool) \<Rightarrow> (index \<times> nat) list \<Rightarrow> VoxelGrid \<Rightarrow> py_error + (VoxelGrid \<times> index list)"
where
  "fill_loop inside [] g = Inr (g, [])"
| "fill_loop inside ((idx, n) # rest) g =
     (if data (grid g) ! n then fill_loop inside rest g
      else
        (case (if inside idx then mark g idx else Inr g) of
           Inl e \<Rightarrow> Inl e
         | Inr g' \<Rightarrow>
             (case fill_loop inside rest g' of
                Inl e \<Rightarrow> Inl e
              | Inr (g'', yielded) \<Rightarrow> Inr (g'', idx # yielded))))"

subsection \<open>The classifier\<close>

text \<open>
  \<^verbatim>\<open>min_corner + Vector(idx) * voxel_size + Vector((0.5, 0.5, 0.5)) * voxel_size\<close>
\<close>

fun voxel_center :: "vec \<Rightarrow> real \<Rightarrow> index \<Rightarrow> vec" where
  "voxel_center mn vs (i, j, k) =
     vadd (vadd mn (vscale (real_of_int i, real_of_int j, real_of_int k) vs))
       (vscale (1 / 2, 1 / 2, 1 / 2) vs)"

text \<open>\<^verbatim>\<open>Vector((1, 0.1, 0.3)).normalized()\<close>\<close>

definition direction :: vec where
  "direction = normalized (1, 1 / 10, 3 / 10)"

text \<open>An edge of the BMesh is the pair of its end points; its median is their midpoint.\<close>

type_synonym edge = "vec \<times> vec"

definition calc_center_median :: "edge \<Rightarrow> vec" where
  "calc_center_median e = vscale (vadd (fst e) (snd e)) (1 / 2)"

text \<open>\<^verbatim>\<open>hit = edge.calc_center_median().dot(direction - center)\<close>\<close>

definition hit :: "edge \<Rightarrow> vec \<Rightarrow> real" where
  "hit e center = dot (calc_center_median e) (vsub direction center)"

text \<open>The inner loop over \<^verbatim>\<open>bm.edges\<close>: the counter goes up where \<open>hit > 0\<close>.\<close>

definition crossing_count :: "edge list \<Rightarrow> vec \<Rightarrow> nat" where
  "crossing_count es center = fold (\<lambda>e count. if hit e center > 0 then count + 1 else count) es 0"

text \<open>The test \<^verbatim>\<open>count % 2 == 1\<close> of the voxel with coordinate \<open>idx\<close>.\<close>

definition inside_voxel :: "edge list \<Rightarrow> vec \<Rightarrow> real \<Rightarrow> index \<Rightarrow> bool" where
  "inside_voxel es mn vs idx = (crossing_count es (voxel_center mn vs idx) mod 2 = 1)"

text \<open>The loop \<^verbatim>\<open>for idx in voxel_grid.iter_empty(): ...\<close> of \<^verbatim>\<open>execute\<close>.\<close>

definition voxel_fill ::
  "edge list \<Rightarrow> vec \<Rightarrow> real \<Rightarrow> VoxelGrid \<Rightarrow> py_error + (VoxelGrid \<times> index list)"
where
  "voxel_fill es mn vs g =
     fill_loop (inside_voxel es mn vs)
       (zip (ndindex (shape (grid g))) [0..<length (data (grid g))]) g"

text \<open>
  For comparison, the classification against a snapshot: the empty voxels of the grid
  as it stands are enumerated first, each is tested, and those that pass are marked.
\<close>

fun mark_each :: "index list \<Rightarrow> VoxelGrid \<Rightarrow> py_error + VoxelGrid" where
  "mark_each [] g = Inr g"
| "mark_each (idx # rest) g =
     (case mark g idx of Inl e \<Rightarrow> Inl e | Inr g' \<Rightarrow> mark_each rest g')"

definition snapshot_fill :: "(index \<Rightarrow> bool) \<Rightarrow> VoxelGrid \<Rightarrow> py_error + VoxelGrid" where
  "snapshot_fill inside g = mark_each (filter inside (iter_empty g)) g"

subsection \<open>The host: objects, collections and reports\<close>

type_synonym row4 = "real \<times> real \<times> real \<times> real"
type_synonym mat4 = "row4 \<times> row4 \<times> row4 \<times> row4"

text \<open>
  A 4x4 matrix applied to a three-component vector, which is read with a fourth
  component 1 (\<^verbatim>\<open>world_matrix @ Vector(corner)\<close>, \<^verbatim>\<open>bm.transform\<close>).
\<close>

fun mat_apply :: "mat4 \<Rightarrow> vec \<Rightarrow> vec" where
  "mat_apply ((a0, a1, a2, a3), (b0, b1, b2, b3), (c0, c1, c2, c3), r) (x, y, z) =
     (a0 * x + a1 * y + a2 * z + a3,
      b0 * x + b1 * y + b2 * z + b3,
      c0 * x + c1 * y + c2 * z + c3)"

record mesh =
  vertices :: "vec list"
  edges :: "edge list"
  polygons :: "vec list list"

record bl_object =
  obj_type :: string
  obj_data :: mesh
  matrix_world :: mat4
  bound_box :: "vec list"

text \<open>A cube made by \<^verbatim>\<open>bpy.ops.mesh.primitive_cube_add\<close>, with the name given to it.\<close>

record cube_object =
  cube_name :: string
  cube_size :: real
  cube_location :: vec

text \<open>
  The part of Blender's state that \<^verbatim>\<open>execute\<close> touches: the reports of the operator,
  the interaction mode, the names in \<^verbatim>\<open>bpy.data.collections\<close>, the collections
  linked under the scene's root collection, and the objects linked into named
  collections.
\<close>

record host =
  reports :: "(string \<times> string) list"
  mode :: string
  collections :: "string list"
  scene_children :: "string list"
  collection_objects :: "(string \<times> cube_object) list"

datatype op_status = CANCELLED | FINISHED

text \<open>What a run leaves: the returned status, the host, and the grid it allocated, if any.\<close>

record run =
  returned :: op_status
  host_after :: host
  voxel_grid :: "VoxelGrid option"

definition report :: "string \<Rightarrow> string \<Rightarrow> host \<Rightarrow> host" where
  "report level msg h = h\<lparr>reports := reports h @ [(level, msg)]\<rparr>"

text \<open>
  \<^verbatim>\<open>bpy.data.collections.get(name)\<close>, and when there is none
  \<^verbatim>\<open>bpy.data.collections.new(name)\<close> linked under the scene's root collection.
\<close>

definition ensure_collection :: "string \<Rightarrow> host \<Rightarrow> host" where
  "ensure_collection name h =
     (if name \<in> set (collections h) then h
      else h\<lparr>collections := collections h @ [name],
             scene_children := scene_children h @ [name]\<rparr>)"

text \<open>\<^verbatim>\<open>min\<close> and \<^verbatim>\<open>max\<close> of a sequence that is not empty.\<close>

definition py_min :: "real list \<Rightarrow> real" where
  "py_min xs = fold min (tl xs) (hd xs)"

definition py_max :: "real list \<Rightarrow> real" where
  "py_max xs = fold max (tl xs) (hd xs)"

text \<open>\<^verbatim>\<open>Vector(map(min, zip(*bounds)))\<close> and \<^verbatim>\<open>Vector(map(max, zip(*bounds)))\<close>\<close>

definition corner_min :: "vec list \<Rightarrow> vec" where
  "corner_min bs =
     (py_min (map fst bs), py_min (map (fst \<circ> snd) bs), py_min (map (snd \<circ> snd) bs))"

definition corner_max :: "vec list \<Rightarrow> vec" where
  "corner_max bs =
     (py_max (map fst bs), py_max (map (fst \<circ> snd) bs), py_max (map (snd \<circ> snd) bs))"

text \<open>\<^verbatim>\<open>bm.from_mesh(mesh); bm.transform(world_matrix); bm.edges\<close>\<close>

definition bm_edges :: "bl_object \<Rightarrow> edge list" where
  "bm_edges ob =
     map (\<lambda>(a, b). (mat_apply (matrix_world ob) a, mat_apply (matrix_world ob) b))
       (edges (obj_data ob))"

subsection \<open>Names of the generated cubes\<close>

text \<open>\<^verbatim>\<open>str\<close> of a Python integer, and of a tuple of three integers.\<close>

definition digit_char :: "nat \<Rightarrow> char" where
  "digit_char d = ''0123456789'' ! d"

fun str_nat :: "nat \<Rightarrow> string" where
  "str_nat n =
     (if n < 10 then [digit_char n] else str_nat (n div 10) @ [digit_char (n mod 10)])"

definition str_int :: "int \<Rightarrow> string" where
  "str_int i = (if i < 0 then CHR ''-'' # str_nat (nat (- i)) else str_nat (nat i))"

fun str_index :: "index \<Rightarrow> string" where
  "str_index (i, j, k) =
     ''('' @ str_int i @ '', '' @ str_int j @ '', '' @ str_int k @ '')''"

subsection \<open>The emitter\<close>

text \<open>
  The body of \<^verbatim>\<open>if props.use_boxes\<close>: the cube is created with the voxel size and the
  centre, renamed \<^verbatim>\<open>f"VCG_Cube_{idx}"\<close>, linked into the collection and unlinked from
  the scene's root collection, where \<^verbatim>\<open>primitive_cube_add\<close> had put it. No rotation is
  passed, so the cube keeps the orientation of the world axes. Blender may append a
  numeric suffix to a name that another object of the file already has; the model
  keeps the name the code assigns.
\<close>

definition place_cube :: "string \<Rightarrow> real \<Rightarrow> vec \<Rightarrow> index \<Rightarrow> host \<Rightarrow> host" where
  "place_cube coll vs center idx h =
     h\<lparr>collection_objects := collection_objects h @
          [(coll, \<lparr>cube_name = ''VCG_Cube_'' @ str_index idx, cube_size = vs,
                   cube_location = center\<rparr>)]\<rparr>"

text \<open>The loop \<^verbatim>\<open>for idx, filled in np.ndenumerate(voxel_grid.grid)\<close>.\<close>

fun emit_loop ::
  "VCG_Props \<Rightarrow> string \<Rightarrow> vec \<Rightarrow> real \<Rightarrow> (index \<times> bool) list \<Rightarrow> host \<Rightarrow> host"
where
  "emit_loop props coll mn vs [] h = h"
| "emit_loop props coll mn vs ((idx, filled) # rest) h =
     (if \<not> filled then emit_loop props coll mn vs rest h
      else
        (let center = voxel_center mn vs idx in
         if use_boxes props then
           emit_loop props coll mn vs rest (place_cube coll vs center idx h)
         else emit_loop props coll mn vs rest h))"

subsection \<open>The operator\<close>

text \<open>
  \<^verbatim>\<open>VCG_OT_Generate.execute\<close>, with the active object (\<open>None\<close> when nothing is
  selected) and the host state as arguments. The loop over \<^verbatim>\<open>iter_empty\<close> whose
  body is \<^verbatim>\<open>continue\<close> changes nothing and has no counterpart here.
\<close>

definition execute :: "VCG_Props \<Rightarrow> bl_object option \<Rightarrow> host \<Rightarrow> py_error + run" where
  "execute props obj h =
     (case obj of
        None \<Rightarrow>
          Inr \<lparr>returned = CANCELLED,
               host_after = report ''ERROR'' ''Select a mesh object.'' h,
               voxel_grid = None\<rparr>
      | Some ob \<Rightarrow>
          if obj_type ob \<noteq> ''MESH'' then
            Inr \<lparr>returned = CANCELLED,
                 host_after = report ''ERROR'' ''Select a mesh object.'' h,
                 voxel_grid = None\<rparr>
          else
            (let h1 = report ''INFO'' ''Starting voxel-based primitive fitting...'' h;
                 h2 = h1\<lparr>mode := ''OBJECT''\<rparr>;
                 bounds = map (mat_apply (matrix_world ob)) (bound_box ob)
             in
             if bounds = [] then Inl ValueError
             else
               (let mn = corner_min bounds;
                    mx = corner_max bounds;
                    vs = VCG_Props.voxel_size props
                in
                (case VoxelGrid_init mn mx vs of
                   Inl e \<Rightarrow> Inl e
                 | Inr vg \<Rightarrow>
                     (let h3 = ensure_collection ''VCG_Colliders'' h2 in
                      (case voxel_fill (bm_edges ob) mn vs vg of
                         Inl e \<Rightarrow> Inl e
                       | Inr (vg', yielded) \<Rightarrow>
                           (let h4 = emit_loop props ''VCG_Colliders'' mn vs
                                       (ndenumerate (grid vg')) h3;
                                h5 = report ''INFO'' ''Voxel primitives placed.'' h4
                            in
                            Inr \<lparr>returned = FINISHED, host_after = h5,
                                 voxel_grid = Some vg'\<rparr>)))))))"

text \<open>The row-major order of coordinates: the first axis is the most significant.\<close>

fun row_major :: "index \<Rightarrow> index \<Rightarrow> bool" where
  "row_major (i, j, k) (i', j', k') =
     (i < i' \<or> (i = i' \<and> (j < j' \<or> (j = j' \<and> k < k'))))"

text \<open>The value held by the cell of a coordinate.\<close>

definition cell :: "VoxelGrid \<Rightarrow> index \<Rightarrow> bool" where
  "cell g idx = data (grid g) ! offset (shape (grid g)) idx"

declare ndindex.simps [simp del]
declare str_nat.simps [simp del]

subsection \<open>Concrete inputs\<close>

text \<open>A grid of two voxels per axis in which the cells (0, 0, 1) and (1, 0, 1) are marked.\<close>

definition demo_grid :: VoxelGrid where
  "demo_grid =
     \<lparr>min_corner = (0, 0, 0), max_corner = (1, 1, 1), VoxelGrid.voxel_size = 1 / 2,
      dims = (1, 1, 1), grid_size = (2, 2, 2),
      grid = \<lparr>shape = (2, 2, 2),
               data = [False, True, False, False, False, True, False, False]\<rparr>\<rparr>"

text \<open>
  The positions a sweep over a grid visits: every coordinate at most once, each inside
  the grid and paired with its own flat position.
\<close>

definition positions_ok :: "VoxelGrid \<Rightarrow> (index \<times> nat) list \<Rightarrow> bool" where
  "positions_ok g ps =
     (distinct (map fst ps) \<and>
      (\<forall>p \<in> set ps. in_range (fst p) (grid_size g) \<and> snd p = offset (shape (grid g)) (fst p)))"

text \<open>
  The six edges of the tetrahedron with corners (0,0,0), (1,0,0), (0,1,0), (0,0,1), and
  the fresh grid of one voxel of size 1 over its bounding box.
\<close>

definition tetra_edges :: "edge list" where
  "tetra_edges =
     [((0, 0, 0), (1, 0, 0)), ((0, 0, 0), (0, 1, 0)), ((0, 0, 0), (0, 0, 1)),
      ((1, 0, 0), (0, 1, 0)), ((1, 0, 0), (0, 0, 1)), ((0, 1, 0), (0, 0, 1))]"

definition unit_grid :: VoxelGrid where
  "unit_grid =
     \<lparr>min_corner = (0, 0, 0), max_corner = (1, 1, 1), VoxelGrid.voxel_size = 1,
      dims = (1, 1, 1), grid_size = (1, 1, 1),
      grid = \<lparr>shape = (1, 1, 1), data = [False]\<rparr>\<rparr>"

section \<open>Properties of the grid\<close>

lemma norm_index_in_range: "0 \<le> i \<Longrightarrow> i < int n \<Longrightarrow> norm_index n i = Some (nat i)"
  by (simp add: norm_index_def)

lemma offset_less:
  assumes "i < nx" "j < ny" "k < nz"
  shows "(i * ny + j) * nz + k < nx * ny * (nz::nat)"
proof -
  have "i * ny + j < nx * ny"
  proof -
    have "i * ny + j < i * ny + ny" using assms(2) by simp
    also have "\<dots> = Suc i * ny" by simp
    also have "\<dots> \<le> nx * ny" using assms(1) by (intro mult_le_mono1) simp
    finally show ?thesis .
  qed
  then have "Suc (i * ny + j) * nz \<le> nx * ny * nz"
    by (intro mult_le_mono1) simp
  moreover have "(i * ny + j) * nz + k < Suc (i * ny + j) * nz"
    using assms(3) by simp
  ultimately show ?thesis by linarith
qed

lemma ravel_in_range:
  assumes "in_range idx (int nx, int ny, int nz)"
  shows "ravel (nx, ny, nz) idx = Some (offset (nx, ny, nz) idx)"
    and "offset (nx, ny, nz) idx < nx * ny * nz"
proof -
  obtain i j k where idx: "idx = (i, j, k)" by (cases idx) auto
  from assms idx have r: "0 \<le> i" "i < int nx" "0 \<le> j" "j < int ny" "0 \<le> k" "k < int nz"
    by simp_all
  show "ravel (nx, ny, nz) idx = Some (offset (nx, ny, nz) idx)"
    using r by (simp add: idx norm_index_in_range)
  have "nat i < nx" "nat j < ny" "nat k < nz" using r by linarith+
  then show "offset (nx, ny, nz) idx < nx * ny * nz"
    unfolding idx offset.simps by (rule offset_less)
qed

lemma getitem_in_range:
  assumes "grid_ok g" "in_range idx (grid_size g)"
  shows "getitem (grid g) idx = Inr (data (grid g) ! offset (shape (grid g)) idx)"
proof -
  obtain nx ny nz where s: "shape (grid g) = (nx, ny, nz)" by (cases "shape (grid g)") auto
  from assms(1) s have gs: "grid_size g = (int nx, int ny, int nz)"
    and len: "length (data (grid g)) = nx * ny * nz"
    by (simp_all add: grid_ok_def)
  from assms(2) gs have "in_range idx (int nx, int ny, int nz)" by simp
  from ravel_in_range[OF this] len s show ?thesis
    by (simp add: getitem_def)
qed

lemma sorted_wrt_product:
  assumes "sorted_wrt R xs" "sorted_wrt S ys"
  shows "sorted_wrt (\<lambda>p q. R (fst p) (fst q) \<or> (fst p = fst q \<and> S (snd p) (snd q)))
           (List.product xs ys)"
  using assms
proof (induction xs)
  case Nil
  then show ?case by simp
next
  case (Cons x xs)
  have "sorted_wrt (\<lambda>a b. R x x \<or> S a b) ys"
    by (rule sorted_wrt_mono_rel[OF _ Cons.prems(2)]) simp
  with Cons show ?case
    by (auto simp: sorted_wrt_append sorted_wrt_map)
qed

lemma sorted_wrt_upt_less: "sorted_wrt (<) [0..<n]"
  by (simp add: sorted_wrt_iff_nth_less)

lemma ndindex_sorted: "sorted_wrt row_major (ndindex s)"
proof -
  obtain nx ny nz where s: "s = (nx, ny, nz)" by (cases s) auto
  let ?inner = "\<lambda>p q :: nat \<times> nat. fst p < fst q \<or> (fst p = fst q \<and> snd p < snd q)"
  have 1: "sorted_wrt ?inner (List.product [0..<ny] [0..<nz])"
    by (rule sorted_wrt_product) (rule sorted_wrt_upt_less)+
  have 2: "sorted_wrt (\<lambda>p q :: nat \<times> nat \<times> nat. fst p < fst q \<or> (fst p = fst q \<and> ?inner (snd p) (snd q)))
     (List.product [0..<nx] (List.product [0..<ny] [0..<nz]))"
    by (rule sorted_wrt_product[OF sorted_wrt_upt_less 1])
  show ?thesis
    unfolding s ndindex.simps sorted_wrt_map
    by (rule sorted_wrt_mono_rel[OF _ 2]) auto
qed

lemma ndindex_distinct: "distinct (ndindex s)"
proof -
  obtain nx ny nz where s: "s = (nx, ny, nz)" by (cases s) auto
  have "inj (\<lambda>(i, j, k). (int i, int j, int k))"
    by (auto simp: inj_on_def)
  then show ?thesis
    unfolding s ndindex.simps
    by (simp add: distinct_map distinct_product inj_on_def)
qed

lemma length_ndindex: "length (ndindex (nx, ny, nz)) = nx * ny * nz"
  by (simp add: ndindex.simps mult.assoc)

lemma set_ndindex:
  "set (ndindex (nx, ny, nz)) = {idx. in_range idx (int nx, int ny, int nz)}"
proof (intro set_eqI iffI)
  fix idx assume "idx \<in> set (ndindex (nx, ny, nz))"
  then show "idx \<in> {idx. in_range idx (int nx, int ny, int nz)}"
    by (auto simp: ndindex.simps)
next
  fix idx assume a: "idx \<in> {idx. in_range idx (int nx, int ny, int nz)}"
  obtain i j k where idx: "idx = (i, j, k)" by (cases idx) auto
  from a idx have "(nat i, nat j, nat k) \<in> set (List.product [0..<nx] (List.product [0..<ny] [0..<nz]))"
    by auto
  moreover from a idx have "idx = (\<lambda>(i, j, k). (int i, int j, int k)) (nat i, nat j, nat k)"
    by auto
  ultimately show "idx \<in> set (ndindex (nx, ny, nz))"
    unfolding ndindex.simps set_map by (rule image_eqI[rotated])
qed

lemma offset_ndindex_nth:
  assumes "n < nx * ny * nz"
  shows "offset (nx, ny, nz) (ndindex (nx, ny, nz) ! n) = n"
proof -
  let ?ys = "List.product [0..<ny] [0..<nz]"
  have ly: "length ?ys = ny * nz" by simp
  from assms have n: "n < length [0..<nx] * length ?ys" by (simp add: mult.assoc)
  have nz: "ny * nz \<noteq> 0" using assms by (cases "ny = 0"; cases "nz = 0") auto
  have "n < nx * (ny * nz)" using assms by (simp add: mult.assoc)
  then have d: "n div (ny * nz) < nx" by (rule less_mult_imp_div_less)
  have m: "n mod (ny * nz) < length [0..<ny] * length [0..<nz]"
    using nz by simp
  have "n mod (ny * nz) < ny * nz" using nz by simp
  then have mdn2: "n mod (ny * nz) div nz < ny" by (rule less_mult_imp_div_less)
  have mdn1: "n mod (ny * nz) mod nz < nz" using nz by simp
  note mdn = mdn1 mdn2
  have "List.product [0..<nx] ?ys ! n = (n div (ny * nz), n mod (ny * nz) div nz, n mod (ny * nz) mod nz)"
    using d mdn by (simp add: product_nth[OF n] product_nth[OF m])
  then have "ndindex (nx, ny, nz) ! n =
      (int (n div (ny * nz)), int (n mod (ny * nz) div nz), int (n mod (ny * nz) mod nz))"
    using n by (simp add: ndindex.simps)
  then have "offset (nx, ny, nz) (ndindex (nx, ny, nz) ! n) =
      (n div (ny * nz) * ny + n mod (ny * nz) div nz) * nz + n mod (ny * nz) mod nz"
    by simp
  also have "\<dots> = n div (ny * nz) * (ny * nz) + (n mod (ny * nz) div nz * nz + n mod (ny * nz) mod nz)"
    by (simp add: algebra_simps)
  also have "\<dots> = n" by (simp only: div_mult_mod_eq)
  finally show ?thesis .
qed

lemma ndindex_nth_offset:
  assumes "in_range idx (int nx, int ny, int nz)"
  shows "ndindex (nx, ny, nz) ! offset (nx, ny, nz) idx = idx"
proof -
  from assms have "idx \<in> set (ndindex (nx, ny, nz))" by (simp add: set_ndindex)
  then obtain n where n: "n < length (ndindex (nx, ny, nz))" "ndindex (nx, ny, nz) ! n = idx"
    by (auto simp: in_set_conv_nth)
  from n(1) have "n < nx * ny * nz" by (simp only: length_ndindex)
  from offset_ndindex_nth[OF this] n(2) have "offset (nx, ny, nz) idx = n" by simp
  with n(2) show ?thesis by simp
qed

lemma zip_map_nth:
  assumes "length xs = length ys" "\<And>n. n < length xs \<Longrightarrow> f (xs ! n) = ys ! n"
  shows "zip xs ys = map (\<lambda>x. (x, f x)) xs"
  using assms by (intro nth_equalityI) auto

lemma ndenumerate_cells:
  assumes "grid_ok g"
  shows "ndenumerate (grid g) = map (\<lambda>idx. (idx, cell g idx)) (ndindex (shape (grid g)))"
proof -
  obtain nx ny nz where s: "shape (grid g) = (nx, ny, nz)" by (cases "shape (grid g)") auto
  from assms s have len: "length (data (grid g)) = nx * ny * nz"
    by (simp add: grid_ok_def)
  have "zip (ndindex (nx, ny, nz)) (data (grid g)) =
          map (\<lambda>idx. (idx, data (grid g) ! offset (nx, ny, nz) idx)) (ndindex (nx, ny, nz))"
  proof (rule zip_map_nth)
    show "length (ndindex (nx, ny, nz)) = length (data (grid g))"
      using len by (simp only: length_ndindex)
  next
    fix n assume "n < length (ndindex (nx, ny, nz))"
    then have "n < nx * ny * nz" by (simp only: length_ndindex)
    then show "data (grid g) ! offset (nx, ny, nz) (ndindex (nx, ny, nz) ! n) = data (grid g) ! n"
      by (simp only: offset_ndindex_nth)
  qed
  then show ?thesis by (simp add: ndenumerate_def s cell_def)
qed

lemma iter_empty_filter:
  assumes "grid_ok g"
  shows "iter_empty g = filter (\<lambda>idx. \<not> cell g idx) (ndindex (shape (grid g)))"
  by (simp add: iter_empty_def ndenumerate_cells[OF assms] filter_map comp_def)

lemma is_marked_cell:
  assumes "grid_ok g" "in_range idx (grid_size g)"
  shows "is_marked g idx = Inr (cell g idx)"
  using assms by (simp add: is_marked_def getitem_in_range cell_def)

lemma set_ndindex_grid:
  assumes "grid_ok g"
  shows "set (ndindex (shape (grid g))) = {idx. in_range idx (grid_size g)}"
proof -
  obtain nx ny nz where s: "shape (grid g) = (nx, ny, nz)" by (cases "shape (grid g)") auto
  with assms show ?thesis by (simp add: grid_ok_def set_ndindex)
qed

text \<open>
  C2. A query with a component that is negative, or not below the grid's dimension on
  its axis, answers True whatever the cells hold; a query inside the grid answers the
  value stored in the cell of that coordinate (the cell at its row-major position in a
  grid that satisfies the constructor's invariant).
\<close>

theorem is_marked_boundary_solid:
  "(\<not> in_range idx (grid_size g) \<longrightarrow> is_marked g idx = Inr True) \<and>
   (in_range idx (grid_size g) \<longrightarrow> is_marked g idx = getitem (grid g) idx) \<and>
   (grid_ok g \<and> in_range idx (grid_size g) \<longrightarrow>
      is_marked g idx = Inr (data (grid g) ! offset (shape (grid g)) idx))"
  by (simp add: is_marked_def getitem_in_range)

theorem is_marked_boundary_solid_witness:
  "is_marked demo_grid (- 1, 0, 0) = Inr True \<and>
   is_marked demo_grid (0, 2, 1) = Inr True \<and>
   is_marked demo_grid (1, 0, 1) = Inr True \<and>
   is_marked demo_grid (1, 1, 0) = Inr False"
  using
    is_marked_boundary_solid [of "(- 1, 0, 0)" demo_grid]
    is_marked_boundary_solid [of "(0, 2, 1)" demo_grid]
    is_marked_boundary_solid [of "(1, 0, 1)" demo_grid]
    is_marked_boundary_solid [of "(1, 1, 0)" demo_grid]
  by (simp add: demo_grid_def grid_ok_def getitem_def norm_index_def)

text \<open>
  C6. On a grid that satisfies the constructor's invariant, \<^verbatim>\<open>iter_empty\<close> yields
  exactly the coordinates inside the grid whose cell holds False, none of them twice,
  in row-major order (it is the row-major list of all coordinates with the marked ones
  left out); the sequence is a function of the cells alone, so a second enumeration of
  an unchanged grid gives the same sequence.
\<close>

theorem iter_empty_exact:
  assumes "grid_ok g"
  shows "set (iter_empty g) = {idx. in_range idx (grid_size g) \<and> is_marked g idx = Inr False} \<and>
         distinct (iter_empty g) \<and>
         sorted_wrt row_major (iter_empty g) \<and>
         iter_empty g = filter (\<lambda>idx. is_marked g idx = Inr False) (ndindex (shape (grid g))) \<and>
         (\<forall>g'. grid g' = grid g \<longrightarrow> iter_empty g' = iter_empty g)"
proof -
  note ie = iter_empty_filter[OF assms]
  have eq: "idx \<in> set (ndindex (shape (grid g))) \<Longrightarrow>
      (is_marked g idx = Inr False) = (\<not> cell g idx)" for idx
    using is_marked_cell[OF assms, of idx] by (simp add: set_ndindex_grid[OF assms])
  have 1: "set (iter_empty g) = {idx. in_range idx (grid_size g) \<and> is_marked g idx = Inr False}"
    using eq by (auto simp: ie set_ndindex_grid[OF assms])
  have 2: "distinct (iter_empty g)"
    by (simp add: ie ndindex_distinct)
  have 3: "sorted_wrt row_major (iter_empty g)"
    unfolding ie by (rule sorted_wrt_filter) (rule ndindex_sorted)
  have 4: "iter_empty g = filter (\<lambda>idx. is_marked g idx = Inr False) (ndindex (shape (grid g)))"
    unfolding ie by (rule filter_cong) (simp_all add: eq)
  have 5: "\<forall>g'. grid g' = grid g \<longrightarrow> iter_empty g' = iter_empty g"
    by (simp add: iter_empty_def)
  from 1 2 3 4 5 show ?thesis by blast
qed

theorem iter_empty_exact_witness:
  "grid_ok demo_grid \<and>
   iter_empty demo_grid = [(0, 0, 0), (0, 1, 0), (0, 1, 1), (1, 0, 0), (1, 1, 0), (1, 1, 1)] \<and>
   set (iter_empty demo_grid) =
     {idx. in_range idx (grid_size demo_grid) \<and> is_marked demo_grid idx = Inr False} \<and>
   distinct (iter_empty demo_grid) \<and>
   sorted_wrt row_major (iter_empty demo_grid)"
proof -
  have ok: "grid_ok demo_grid"
    by (simp add: grid_ok_def demo_grid_def)
  have l: "iter_empty demo_grid = [(0, 0, 0), (0, 1, 0), (0, 1, 1), (1, 0, 0), (1, 1, 0), (1, 1, 1)]"
    by code_simp
  from iter_empty_exact[OF ok] ok l show ?thesis by blast
qed

section \<open>The classification sweep\<close>

lemma offset_inj:
  assumes "in_range a (int nx, int ny, int nz)" "in_range b (int nx, int ny, int nz)"
    "offset (nx, ny, nz) a = offset (nx, ny, nz) b"
  shows "a = b"
  using ndindex_nth_offset[OF assms(1)] ndindex_nth_offset[OF assms(2)] assms(3) by metis

lemma mark_in_range:
  assumes "grid_ok g" "in_range idx (grid_size g)"
  shows "mark g idx =
    Inr (g\<lparr>grid := (grid g)\<lparr>data := (data (grid g))[offset (shape (grid g)) idx := True]\<rparr>\<rparr>)"
proof -
  obtain nx ny nz where s: "shape (grid g) = (nx, ny, nz)" by (cases "shape (grid g)") auto
  from assms(1) s have gs: "grid_size g = (int nx, int ny, int nz)"
    and len: "length (data (grid g)) = nx * ny * nz"
    by (simp_all add: grid_ok_def)
  from assms(2) gs have "in_range idx (int nx, int ny, int nz)" by simp
  from ravel_in_range[OF this] len s assms(2) show ?thesis
    by (simp add: mark_def setitem_def)
qed

lemma mark_props:
  assumes "grid_ok g" "mark g idx = Inr g'"
  shows "grid_ok g'" "grid_size g' = grid_size g" "shape (grid g') = shape (grid g)"
    "length (data (grid g')) = length (data (grid g))"
proof -
  have "grid_ok g' \<and> grid_size g' = grid_size g \<and> shape (grid g') = shape (grid g) \<and>
    length (data (grid g')) = length (data (grid g))"
  proof (cases "in_range idx (grid_size g)")
    case True
    from mark_in_range[OF assms(1) True] assms show ?thesis
      by (auto simp: grid_ok_def)
  next
    case False
    with assms show ?thesis by (simp add: mark_def)
  qed
  then show "grid_ok g'" "grid_size g' = grid_size g" "shape (grid g') = shape (grid g)"
    "length (data (grid g')) = length (data (grid g))" by simp_all
qed

lemma mark_total:
  assumes "grid_ok g"
  shows "\<exists>g'. mark g idx = Inr g'"
  using mark_in_range[OF assms, of idx] by (cases "in_range idx (grid_size g)") (auto simp: mark_def)

lemma mark_cell:
  assumes "grid_ok g" "mark g idx = Inr g'" "in_range idx (grid_size g)" "in_range b (grid_size g)"
  shows "cell g' b = (b = idx \<or> cell g b)"
proof -
  obtain nx ny nz where s: "shape (grid g) = (nx, ny, nz)" by (cases "shape (grid g)") auto
  from assms(1) s have gs: "grid_size g = (int nx, int ny, int nz)"
    and len: "length (data (grid g)) = nx * ny * nz"
    by (simp_all add: grid_ok_def)
  from assms(3,4) gs have r: "in_range idx (int nx, int ny, int nz)" "in_range b (int nx, int ny, int nz)"
    by simp_all
  have lt: "offset (nx, ny, nz) b < length (data (grid g))"
    "offset (nx, ny, nz) idx < length (data (grid g))"
    using ravel_in_range(2)[OF r(2)] ravel_in_range(2)[OF r(1)] len by simp_all
  have g': "g' = g\<lparr>grid := (grid g)\<lparr>data := (data (grid g))[offset (shape (grid g)) idx := True]\<rparr>\<rparr>"
    using mark_in_range[OF assms(1,3)] assms(2) by simp
  have "(offset (nx, ny, nz) b = offset (nx, ny, nz) idx) = (b = idx)"
    using offset_inj[OF r(2) r(1)] by auto
  then show ?thesis
    using lt by (auto simp: g' cell_def s nth_list_update)
qed

lemma mark_out_of_range: "\<not> in_range idx (grid_size g) \<Longrightarrow> mark g idx = Inr g"
  by (simp add: mark_def)

lemma fill_loop_snapshot:
  assumes "grid_ok g" "positions_ok g ps"
  shows "\<exists>g'. fill_loop inside ps g = Inr (g', filter (\<lambda>idx. \<not> cell g idx) (map fst ps)) \<and>
           mark_each (filter inside (filter (\<lambda>idx. \<not> cell g idx) (map fst ps))) g = Inr g' \<and>
           grid_ok g' \<and> grid_size g' = grid_size g \<and> shape (grid g') = shape (grid g) \<and>
           (\<forall>b. in_range b (grid_size g) \<longrightarrow>
              cell g' b = (cell g b \<or> (b \<in> fst ` set ps \<and> inside b)))"
  using assms
proof (induction ps arbitrary: g)
  case Nil
  then show ?case by simp
next
  case (Cons p ps)
  obtain idx n where p: "p = (idx, n)" by (cases p) auto
  from Cons.prems(2) p have r: "in_range idx (grid_size g)" and n: "n = offset (shape (grid g)) idx"
    and notin: "idx \<notin> fst ` set ps" and rest: "positions_ok g ps"
    by (auto simp: positions_ok_def)
  have rd: "data (grid g) ! n = cell g idx" by (simp add: n cell_def)
  show ?case
  proof (cases "cell g idx")
    case True
    from Cons.IH[OF Cons.prems(1) rest] obtain g' where
      "fill_loop inside ps g = Inr (g', filter (\<lambda>idx. \<not> cell g idx) (map fst ps))"
      "mark_each (filter inside (filter (\<lambda>idx. \<not> cell g idx) (map fst ps))) g = Inr g'"
      "grid_ok g'" "grid_size g' = grid_size g" "shape (grid g') = shape (grid g)"
      "\<forall>b. in_range b (grid_size g) \<longrightarrow> cell g' b = (cell g b \<or> (b \<in> fst ` set ps \<and> inside b))"
      by blast
    with True rd show ?thesis by (auto simp: p)
  next
    case False
    show ?thesis
    proof (cases "inside idx")
      case ins: True
      from mark_total[OF Cons.prems(1)] obtain g1 where g1: "mark g idx = Inr g1" by blast
      note mp = mark_props[OF Cons.prems(1) g1]
      have same: "cell g1 b = cell g b" if "b \<in> fst ` set ps" for b
      proof -
        from that rest have "in_range b (grid_size g)" by (auto simp: positions_ok_def)
        from mark_cell[OF Cons.prems(1) g1 r this] that notin show ?thesis by auto
      qed
      have rest1: "positions_ok g1 ps"
        using rest mp by (simp add: positions_ok_def)
      have feq: "filter (\<lambda>idx. \<not> cell g1 idx) (map fst ps) = filter (\<lambda>idx. \<not> cell g idx) (map fst ps)"
        by (rule filter_cong) (auto simp: same)
      from Cons.IH[OF mp(1) rest1] obtain g' where IH:
        "fill_loop inside ps g1 = Inr (g', filter (\<lambda>idx. \<not> cell g1 idx) (map fst ps))"
        "mark_each (filter inside (filter (\<lambda>idx. \<not> cell g1 idx) (map fst ps))) g1 = Inr g'"
        "grid_ok g'" "grid_size g' = grid_size g1" "shape (grid g') = shape (grid g1)"
        "\<forall>b. in_range b (grid_size g1) \<longrightarrow> cell g' b = (cell g1 b \<or> (b \<in> fst ` set ps \<and> inside b))"
        by blast
      have cells: "cell g' b = (cell g b \<or> (b \<in> fst ` set (p # ps) \<and> inside b))"
        if "in_range b (grid_size g)" for b
      proof -
        have "in_range b (grid_size g1)" using that mp(2) by simp
        then have "cell g' b = (cell g1 b \<or> (b \<in> fst ` set ps \<and> inside b))"
          by (rule IH(6)[rule_format])
        moreover have "cell g1 b = (b = idx \<or> cell g b)"
          by (rule mark_cell[OF Cons.prems(1) g1 r that])
        ultimately show ?thesis using ins by (auto simp: p)
      qed
      from IH(1,2) feq False rd ins g1 have
        "fill_loop inside (p # ps) g = Inr (g', filter (\<lambda>idx. \<not> cell g idx) (map fst (p # ps)))"
        "mark_each (filter inside (filter (\<lambda>idx. \<not> cell g idx) (map fst (p # ps)))) g = Inr g'"
        by (simp_all add: p)
      with IH(3,4,5) mp cells show ?thesis by auto
    next
      case nins: False
      from Cons.IH[OF Cons.prems(1) rest] obtain g' where IH:
        "fill_loop inside ps g = Inr (g', filter (\<lambda>idx. \<not> cell g idx) (map fst ps))"
        "mark_each (filter inside (filter (\<lambda>idx. \<not> cell g idx) (map fst ps))) g = Inr g'"
        "grid_ok g'" "grid_size g' = grid_size g" "shape (grid g') = shape (grid g)"
        "\<forall>b. in_range b (grid_size g) \<longrightarrow> cell g' b = (cell g b \<or> (b \<in> fst ` set ps \<and> inside b))"
        by blast
      from IH(1,2) False rd nins have
        "fill_loop inside (p # ps) g = Inr (g', filter (\<lambda>idx. \<not> cell g idx) (map fst (p # ps)))"
        "mark_each (filter inside (filter (\<lambda>idx. \<not> cell g idx) (map fst (p # ps)))) g = Inr g'"
        by (simp_all add: p)
      moreover have "\<forall>b. in_range b (grid_size g) \<longrightarrow>
          cell g' b = (cell g b \<or> (b \<in> fst ` set (p # ps) \<and> inside b))"
        using IH(6) nins by (auto simp: p)
      ultimately show ?thesis using IH(3,4,5) by auto
    qed
  qed
qed

lemma positions_ok_grid:
  assumes "grid_ok g"
  shows "positions_ok g (zip (ndindex (shape (grid g))) [0..<length (data (grid g))])"
    and "map fst (zip (ndindex (shape (grid g))) [0..<length (data (grid g))]) = ndindex (shape (grid g))"
proof -
  obtain nx ny nz where s: "shape (grid g) = (nx, ny, nz)" by (cases "shape (grid g)") auto
  from assms s have gs: "grid_size g = (int nx, int ny, int nz)"
    and len: "length (data (grid g)) = nx * ny * nz"
    by (simp_all add: grid_ok_def)
  have l: "length (ndindex (nx, ny, nz)) = length [0..<length (data (grid g))]"
    by (simp add: len length_ndindex)
  show m: "map fst (zip (ndindex (shape (grid g))) [0..<length (data (grid g))]) = ndindex (shape (grid g))"
    unfolding s using l by (rule map_fst_zip)
  have "in_range (fst p) (grid_size g) \<and> snd p = offset (shape (grid g)) (fst p)"
    if "p \<in> set (zip (ndindex (shape (grid g))) [0..<length (data (grid g))])" for p
  proof -
    from that obtain n where n: "n < nx * ny * nz" "p = (ndindex (nx, ny, nz) ! n, n)"
      by (auto simp: in_set_zip s len length_ndindex)
    have "fst p \<in> set (ndindex (nx, ny, nz))"
      using n by (simp add: length_ndindex)
    then have "in_range (fst p) (grid_size g)" by (simp add: set_ndindex gs)
    moreover have "snd p = offset (shape (grid g)) (fst p)"
      using n offset_ndindex_nth[OF n(1)] by (simp add: s)
    ultimately show ?thesis by simp
  qed
  then show "positions_ok g (zip (ndindex (shape (grid g))) [0..<length (data (grid g))])"
    unfolding positions_ok_def m using ndindex_distinct by blast
qed

lemma voxel_fill_snapshot_general:
  assumes "grid_ok g"
  shows "\<exists>g'. voxel_fill es mn vs g = Inr (g', iter_empty g) \<and>
           snapshot_fill (inside_voxel es mn vs) g = Inr g' \<and>
           grid_ok g' \<and> grid_size g' = grid_size g \<and>
           (\<forall>b. in_range b (grid_size g) \<longrightarrow>
              cell g' b = (cell g b \<or> inside_voxel es mn vs b))"
proof -
  let ?ps = "zip (ndindex (shape (grid g))) [0..<length (data (grid g))]"
  let ?ins = "inside_voxel es mn vs"
  note po = positions_ok_grid[OF assms]
  from fill_loop_snapshot[OF assms po(1), of ?ins] obtain g' where
    a: "fill_loop ?ins ?ps g = Inr (g', filter (\<lambda>idx. \<not> cell g idx) (map fst ?ps))" and
    b: "mark_each (filter ?ins (filter (\<lambda>idx. \<not> cell g idx) (map fst ?ps))) g = Inr g'" and
    c: "grid_ok g'" "grid_size g' = grid_size g" and
    d: "\<forall>b. in_range b (grid_size g) \<longrightarrow> cell g' b = (cell g b \<or> (b \<in> fst ` set ?ps \<and> ?ins b))"
    by blast
  have img: "fst ` set ?ps = {idx. in_range idx (grid_size g)}"
    using po(2) set_ndindex_grid[OF assms] by (metis set_map)
  have ie: "iter_empty g = filter (\<lambda>idx. \<not> cell g idx) (map fst ?ps)"
    by (simp only: po(2) iter_empty_filter[OF assms])
  have 1: "voxel_fill es mn vs g = Inr (g', iter_empty g)"
    using a by (simp only: voxel_fill_def ie)
  have 2: "snapshot_fill ?ins g = Inr g'"
    using b by (simp only: snapshot_fill_def ie)
  have 3: "\<forall>b. in_range b (grid_size g) \<longrightarrow> cell g' b = (cell g b \<or> ?ins b)"
    using d img by auto
  from 1 2 3 c show ?thesis by blast
qed

lemma VoxelGrid_init_fresh:
  assumes "VoxelGrid_init a b s = Inr g"
  shows "grid_ok g" and "\<forall>v \<in> set (data (grid g)). \<not> v"
proof -
  obtain dx dy dz where d: "vsub b a = (dx, dy, dz)" by (cases "vsub b a") auto
  from assms d have "grid_ok g \<and> (\<forall>v \<in> set (data (grid g)). \<not> v)"
    by (auto simp: VoxelGrid_init_def Let_def grid_ok_def split: if_splits)
  then show "grid_ok g" and "\<forall>v \<in> set (data (grid g)). \<not> v" by blast+
qed

lemma fresh_cells:
  assumes "grid_ok g" "\<forall>v \<in> set (data (grid g)). \<not> v" "in_range idx (grid_size g)"
  shows "\<not> cell g idx"
proof -
  obtain nx ny nz where s: "shape (grid g) = (nx, ny, nz)" by (cases "shape (grid g)") auto
  from assms(1) s have gs: "grid_size g = (int nx, int ny, int nz)"
    and len: "length (data (grid g)) = nx * ny * nz"
    by (simp_all add: grid_ok_def)
  from assms(3) gs have "in_range idx (int nx, int ny, int nz)" by simp
  from ravel_in_range(2)[OF this] len have "offset (nx, ny, nz) idx < length (data (grid g))"
    by simp
  then have "data (grid g) ! offset (nx, ny, nz) idx \<in> set (data (grid g))" by (rule nth_mem)
  with assms(2) show ?thesis by (auto simp: cell_def s)
qed

lemma fresh_iter_empty:
  assumes "grid_ok g" "\<forall>v \<in> set (data (grid g)). \<not> v"
  shows "iter_empty g = ndindex (shape (grid g))"
proof -
  have "filter (\<lambda>idx. \<not> cell g idx) (ndindex (shape (grid g))) = ndindex (shape (grid g))"
    using fresh_cells[OF assms] by (simp add: set_ndindex_grid[OF assms(1)])
  then show ?thesis by (simp only: iter_empty_filter[OF assms(1)])
qed

lemma dot_vsub: "dot m (vsub d c) = dot m d - dot m c"
  by (cases m; cases d; cases c) (simp add: algebra_simps)

lemma direction_eq:
  "direction = (1 / sqrt (11 / 10), (1 / 10) / sqrt (11 / 10), (3 / 10) / sqrt (11 / 10))"
proof -
  have "dot (1, 1 / 10, 3 / 10) (1, 1 / 10, 3 / 10) = (11 / 10 :: real)" by simp
  then show ?thesis by (simp add: direction_def normalized_def Let_def)
qed

lemma dot_direction: "dot m direction = dot m (1, 1 / 10, 3 / 10) / sqrt (11 / 10)"
  by (cases m) (simp add: direction_eq add_divide_distrib)

lemma sq_less_iff:
  fixes x y :: real
  assumes "0 \<le> x" "0 \<le> y"
  shows "(x < y) = (x\<^sup>2 < y\<^sup>2)"
  using assms by (auto simp: power2_less_imp_less intro: power_strict_mono)

lemma sqrt_compare:
  fixes A B :: real
  shows "(B * sqrt (11 / 10) < A) =
         (if 0 \<le> B then 0 < A \<and> 11 * B\<^sup>2 < 10 * A\<^sup>2 else 0 \<le> A \<or> 10 * A\<^sup>2 < 11 * B\<^sup>2)"
proof -
  let ?l = "sqrt (11 / 10) :: real"
  have l: "0 < ?l" by simp
  have l2: "?l\<^sup>2 = 11 / 10" by simp
  show ?thesis
  proof (cases "0 \<le> B")
    case True
    then have nn: "0 \<le> B * ?l" by simp
    show ?thesis
    proof (cases "0 < A")
      case A: True
      have "(B * ?l < A) = ((B * ?l)\<^sup>2 < A\<^sup>2)"
        by (rule sq_less_iff) (use nn A in simp_all)
      also have "\<dots> = (11 * B\<^sup>2 < 10 * A\<^sup>2)"
        by (simp add: power_mult_distrib l2 algebra_simps)
      finally show ?thesis using True A by simp
    next
      case False
      then have "\<not> B * ?l < A" using nn by linarith
      with True False show ?thesis by simp
    qed
  next
    case False
    then have neg: "B * ?l < 0" using l by (simp add: mult_neg_pos)
    show ?thesis
    proof (cases "0 \<le> A")
      case True
      then have "B * ?l < A" using neg by linarith
      with True False show ?thesis by simp
    next
      case A: False
      have "(B * ?l < A) = (- A < - (B * ?l))" by simp
      also have "\<dots> = ((- A)\<^sup>2 < (- (B * ?l))\<^sup>2)"
        by (rule sq_less_iff) (use A neg in simp_all)
      also have "\<dots> = (A\<^sup>2 < (B * ?l)\<^sup>2)" by simp
      also have "\<dots> = (10 * A\<^sup>2 < 11 * B\<^sup>2)"
        by (simp add: power_mult_distrib l2 algebra_simps)
      finally show ?thesis using False A by simp
    qed
  qed
qed

lemma hit_positive:
  "(0 < hit e c) =
     (let A = dot (calc_center_median e) (1, 1 / 10, 3 / 10); B = dot (calc_center_median e) c
      in if 0 \<le> B then 0 < A \<and> 11 * B\<^sup>2 < 10 * A\<^sup>2 else 0 \<le> A \<or> 10 * A\<^sup>2 < 11 * B\<^sup>2)"
proof -
  have "(0 < hit e c) =
      (dot (calc_center_median e) c * sqrt (11 / 10) < dot (calc_center_median e) (1, 1 / 10, 3 / 10))"
    by (simp add: hit_def dot_vsub dot_direction pos_less_divide_eq)
  then show ?thesis by (simp only: sqrt_compare Let_def)
qed

lemma tetra_count: "crossing_count tetra_edges (1 / 2, 1 / 2, 1 / 2) = 3"
  by (simp add: crossing_count_def tetra_edges_def hit_positive calc_center_median_def Let_def power2_eq_square)

text \<open>
  C10. On the grid as the constructor leaves it, the sweep that marks the grid while
  \<^verbatim>\<open>iter_empty\<close> is reading it visits every coordinate of the grid exactly once, in
  row-major order, and ends in the grid that the classification against a snapshot
  gives (the empty voxels enumerated first, then each tested and marked): a voxel ends
  marked iff the count of its own centre against the edges is odd, whatever was marked
  before it.
\<close>

theorem voxel_fill_equals_snapshot:
  assumes "VoxelGrid_init a b s = Inr g"
  shows "\<exists>g'. voxel_fill es mn vs g = Inr (g', ndindex (shape (grid g))) \<and>
           snapshot_fill (inside_voxel es mn vs) g = Inr g' \<and>
           iter_empty g = ndindex (shape (grid g)) \<and>
           distinct (ndindex (shape (grid g))) \<and>
           set (ndindex (shape (grid g))) = {idx. in_range idx (grid_size g)} \<and>
           grid_size g' = grid_size g \<and>
           (\<forall>idx. in_range idx (grid_size g) \<longrightarrow>
              is_marked g' idx = Inr (crossing_count es (voxel_center mn vs idx) mod 2 = 1))"
proof -
  note fr = VoxelGrid_init_fresh[OF assms]
  note ie = fresh_iter_empty[OF fr]
  from voxel_fill_snapshot_general[OF fr(1), of es mn vs] obtain g' where
    1: "voxel_fill es mn vs g = Inr (g', iter_empty g)" and
    2: "snapshot_fill (inside_voxel es mn vs) g = Inr g'" and
    3: "grid_ok g'" "grid_size g' = grid_size g" and
    4: "\<forall>b. in_range b (grid_size g) \<longrightarrow> cell g' b = (cell g b \<or> inside_voxel es mn vs b)"
    by blast
  have 5: "is_marked g' idx = Inr (crossing_count es (voxel_center mn vs idx) mod 2 = 1)"
    if "in_range idx (grid_size g)" for idx
  proof -
    from that 3 have "is_marked g' idx = Inr (cell g' idx)" by (simp add: is_marked_cell)
    moreover from 4[rule_format, OF that] fresh_cells[OF fr that]
    have "cell g' idx = inside_voxel es mn vs idx"
      by simp
    ultimately show ?thesis by (simp add: inside_voxel_def)
  qed
  from 1 2 3(2) 5 ie ndindex_distinct set_ndindex_grid[OF fr(1)] show ?thesis
    by auto
qed


theorem voxel_fill_equals_snapshot_witness:
  "VoxelGrid_init (0, 0, 0) (1, 1, 1) 1 = Inr unit_grid \<and>
   (\<exists>g'. voxel_fill tetra_edges (0, 0, 0) 1 unit_grid = Inr (g', [(0, 0, 0)]) \<and>
         snapshot_fill (inside_voxel tetra_edges (0, 0, 0) 1) unit_grid = Inr g' \<and>
         is_marked g' (0, 0, 0) = Inr True)"
proof -
  have init: "VoxelGrid_init (0, 0, 0) (1, 1, 1) 1 = Inr unit_grid"
    by (simp add: VoxelGrid_init_def unit_grid_def Let_def)
  have nd: "ndindex (shape (grid unit_grid)) = [(0, 0, 0)]"
    by (simp add: unit_grid_def ndindex.simps)
  have r: "in_range (0, 0, 0) (grid_size unit_grid)"
    by (simp add: unit_grid_def)
  have c: "crossing_count tetra_edges (voxel_center (0, 0, 0) 1 (0, 0, 0)) mod 2 = 1"
    by (simp add: tetra_count)
  from voxel_fill_equals_snapshot[OF init, of tetra_edges "(0, 0, 0)" 1] obtain g' where
    "voxel_fill tetra_edges (0, 0, 0) 1 unit_grid = Inr (g', ndindex (shape (grid unit_grid)))"
    "snapshot_fill (inside_voxel tetra_edges (0, 0, 0) 1) unit_grid = Inr g'"
    "\<forall>idx. in_range idx (grid_size unit_grid) \<longrightarrow>
       is_marked g' idx =
         Inr (crossing_count tetra_edges (voxel_center (0, 0, 0) 1 idx) mod 2 = 1)"
    by blast
  with nd r c init show ?thesis by auto
qed

end
